theory Spec2Isabelle
  imports Main "HOL-Library.AList" "HOL-Library.Char_ord" "HOL-Library.List_Lexorder"
begin

section \<open>Python strings\<close>

text \<open>
  A Python \<open>str\<close> is modelled as a \<^typ>\<open>string\<close>, a list of 8-bit characters. The
  model covers ASCII text: \<open>lower\<close> changes the letters \<open>A\<close>..\<open>Z\<close> only and
  \<open>strip\<close> removes the ASCII characters for which Python's \<open>str.isspace\<close> holds.
  Strings are ordered lexicographically by character code, as Python's \<open>sorted\<close>
  orders them.
\<close>

definition is_space :: "char \<Rightarrow> bool" where
  "is_space c \<longleftrightarrow>
     c \<in> set [CHR 0x09, CHR 0x0A, CHR 0x0B, CHR 0x0C, CHR 0x0D,
              CHR 0x1C, CHR 0x1D, CHR 0x1E, CHR 0x1F, CHR 0x20]"

definition strip_chars :: "(char \<Rightarrow> bool) \<Rightarrow> string \<Rightarrow> string" where
  "strip_chars P s = rev (dropWhile P (rev (dropWhile P s)))"

definition py_strip :: "string \<Rightarrow> string" where
  \<comment> \<open>\<open>s.strip()\<close>\<close>
  "py_strip s = strip_chars is_space s"

definition lower_char :: "char \<Rightarrow> char" where
  "lower_char c =
     (let n = (of_char c :: nat) in if 65 \<le> n \<and> n \<le> 90 then char_of (n + 32) else c)"

definition py_lower :: "string \<Rightarrow> string" where
  \<comment> \<open>\<open>s.lower()\<close>\<close>
  "py_lower s = map lower_char s"

definition py_replace :: "char \<Rightarrow> char \<Rightarrow> string \<Rightarrow> string" where
  \<comment> \<open>\<open>s.replace(a, b)\<close> for one-character \<open>a\<close> and \<open>b\<close>\<close>
  "py_replace a b s = map (\<lambda>c. if c = a then b else c) s"

fun py_split :: "char \<Rightarrow> string \<Rightarrow> string list" where
  \<comment> \<open>\<open>s.split(sep)\<close> for a one-character \<open>sep\<close>\<close>
  "py_split sep [] = [[]]"
| "py_split sep (c # cs) =
     (if c = sep then [] # py_split sep cs
      else (case py_split sep cs of
              [] \<Rightarrow> [[c]]
            | p # ps \<Rightarrow> (c # p) # ps))"

fun py_join :: "string \<Rightarrow> string list \<Rightarrow> string" where
  \<comment> \<open>\<open>sep.join(xs)\<close>\<close>
  "py_join sep [] = []"
| "py_join sep [x] = x"
| "py_join sep (x # y # ys) = x @ sep @ py_join sep (y # ys)"

definition py_startswith :: "string \<Rightarrow> string \<Rightarrow> bool" where
  \<comment> \<open>\<open>s.startswith(p)\<close>\<close>
  "py_startswith s p \<longleftrightarrow> take (length p) s = p"

definition digit_char :: "nat \<Rightarrow> char" where
  "digit_char d = char_of (48 + d)"

function str_nat :: "nat \<Rightarrow> string" where
  "str_nat n = (if n < 10 then [digit_char n] else str_nat (n div 10) @ [digit_char (n mod 10)])"
  by pat_completeness auto
termination
  by (relation "measure id") auto

declare str_nat.simps [simp del]

definition str_int :: "int \<Rightarrow> string" where
  \<comment> \<open>\<open>str(i)\<close> for an \<open>int\<close>\<close>
  "str_int i = (if i < 0 then CHR ''-'' # str_nat (nat (- i)) else str_nat (nat i))"

function re_sub_runs :: "(char \<Rightarrow> bool) \<Rightarrow> string \<Rightarrow> string" where
  \<comment> \<open>\<open>re.sub(r'[C]+', '-', s)\<close>: every maximal run of characters of the class
      \<open>C\<close> becomes one hyphen\<close>
  "re_sub_runs C [] = []"
| "re_sub_runs C (c # cs) =
     (if C c then CHR ''-'' # re_sub_runs C (dropWhile C cs) else c # re_sub_runs C cs)"
  by pat_completeness auto
termination
  by (relation "measure (\<lambda>(C, s). length s)") (auto simp: le_imp_less_Suc length_dropWhile_le)

function re_sub_hyphens :: "string \<Rightarrow> string" where
  \<comment> \<open>\<open>re.sub(r'-{2,}', '-', s)\<close>: every maximal run of two or more hyphens
      becomes one hyphen\<close>
  "re_sub_hyphens [] = []"
| "re_sub_hyphens [c] = [c]"
| "re_sub_hyphens (c # d # cs) =
     (if c = CHR ''-'' \<and> d = CHR ''-''
      then CHR ''-'' # re_sub_hyphens (dropWhile (\<lambda>x. x = CHR ''-'') cs)
      else c # re_sub_hyphens (d # cs))"
  by pat_completeness auto
termination
  by (relation "measure length") (auto simp: le_imp_less_Suc length_dropWhile_le less_Suc_eq_le le_SucI)


section \<open>JSON values\<close>

text \<open>
  The values \<open>json.load\<close> returns. An object is the list of its members in document
  order, a Python \<open>dict\<close>; its keys are distinct. A \<open>float\<close> is carried as the text
  \<open>str\<close> gives for it, since the formatting of floating-point numbers is not modelled.
\<close>

datatype json =
    JNull
  | JBool bool
  | JInt int
  | JFloat string
  | JStr string
  | JArr "json list"
  | JObj "(string \<times> json) list"

definition hex_digit :: "nat \<Rightarrow> char" where
  "hex_digit d = (if d < 10 then char_of (48 + d) else char_of (87 + d))"

definition repr_char :: "char \<Rightarrow> char \<Rightarrow> string" where
  "repr_char q c =
     (let n = (of_char c :: nat) in
      if c = q \<or> c = CHR 0x5C then [CHR 0x5C, c]
      else if c = CHR 0x09 then [CHR 0x5C, CHR ''t'']
      else if c = CHR 0x0A then [CHR 0x5C, CHR ''n'']
      else if c = CHR 0x0D then [CHR 0x5C, CHR ''r'']
      else if n < 32 \<or> n = 127 then [CHR 0x5C, CHR ''x'', hex_digit (n div 16), hex_digit (n mod 16)]
      else [c])"

definition repr_str :: "string \<Rightarrow> string" where
  \<comment> \<open>\<open>repr(s)\<close> for a \<open>str\<close>\<close>
  "repr_str s =
     (let q = (if CHR 0x27 \<in> set s \<and> CHR 0x22 \<notin> set s then CHR 0x22 else CHR 0x27)
      in q # concat (map (repr_char q) s) @ [q])"

fun py_repr :: "json \<Rightarrow> string" where
  "py_repr JNull = ''None''"
| "py_repr (JBool b) = (if b then ''True'' else ''False'')"
| "py_repr (JInt i) = str_int i"
| "py_repr (JFloat r) = r"
| "py_repr (JStr s) = repr_str s"
| "py_repr (JArr xs) = ''['' @ py_join '', '' (map py_repr xs) @ '']''"
| "py_repr (JObj kvs) =
     ''{'' @ py_join '', '' (map (\<lambda>kv. repr_str (fst kv) @ '': '' @ py_repr (snd kv)) kvs) @ ''}''"

definition py_str :: "json \<Rightarrow> string" where
  \<comment> \<open>\<open>str(v)\<close>\<close>
  "py_str v = (case v of JStr s \<Rightarrow> s | _ \<Rightarrow> py_repr v)"

definition dict_get :: "(string \<times> json) list \<Rightarrow> string \<Rightarrow> json \<Rightarrow> json" where
  \<comment> \<open>\<open>d.get(k, default)\<close>\<close>
  "dict_get d k dflt = (case map_of d k of None \<Rightarrow> dflt | Some v \<Rightarrow> v)"

definition is_dict :: "json \<Rightarrow> bool" where
  "is_dict v = (case v of JObj _ \<Rightarrow> True | _ \<Rightarrow> False)"

section \<open>generate\_cmake\_flags\_files.py\<close>

type_synonym flags = "(string \<times> string) list"
  \<comment> \<open>an \<open>OrderedDict\<close> from \<open>str\<close> to \<open>str\<close>, in insertion order;
      \<open>out[k] = v\<close> is \<^const>\<open>AList.update\<close>\<close>

definition is_primitive :: "json \<Rightarrow> bool" where
  \<comment> \<open>\<open>isinstance(v, Primitive)\<close>\<close>
  "is_primitive v = (case v of JArr _ \<Rightarrow> False | JObj _ \<Rightarrow> False | _ \<Rightarrow> True)"

definition filename_char :: "char \<Rightarrow> bool" where
  \<comment> \<open>the class \<open>[a-z0-9-]\<close>\<close>
  "filename_char c =
     (let n = (of_char c :: nat) in (97 \<le> n \<and> n \<le> 122) \<or> (48 \<le> n \<and> n \<le> 57) \<or> c = CHR ''-'')"

definition sanitize_value_for_filename :: "json \<Rightarrow> string" where
  "sanitize_value_for_filename s =
     (if s = JNull then ''none''
      else let s_str = py_lower (py_strip (py_str s)) in
        if s_str = [] then ''empty''
        else let s_str = py_replace CHR ''_'' CHR ''-'' s_str;
                 s_str = re_sub_runs (\<lambda>c. \<not> filename_char c) s_str;
                 s_str = re_sub_hyphens s_str;
                 s_str = strip_chars (\<lambda>c. c = CHR ''-'') s_str
             in if s_str = [] then ''empty'' else s_str)"

definition stringify_primitive :: "json \<Rightarrow> string" where
  "stringify_primitive v =
     (case v of JBool b \<Rightarrow> (if b then ''ON'' else ''OFF'')
      | JNull \<Rightarrow> []
      | _ \<Rightarrow> py_str v)"

definition collect_dict_flags :: "json \<Rightarrow> flags" where
  \<comment> \<open>\<open>d[k]\<close> cannot raise: \<open>k\<close> is a key of \<open>d\<close>\<close>
  "collect_dict_flags d =
     (case d of
        JObj kvs \<Rightarrow>
          foldl (\<lambda>out k.
                   case map_of kvs k of
                     None \<Rightarrow> out
                   | Some v \<Rightarrow> if is_primitive v then AList.update k (stringify_primitive v) out
                              else out)
                [] (sort (map fst kvs))
      | _ \<Rightarrow> [])"

definition merge_flags :: "flags \<Rightarrow> flags \<Rightarrow> flags" where
  "merge_flags hw_flags sw_flags =
     (let merged = foldl (\<lambda>m (k, v). AList.update k v m) [] hw_flags
      in foldl (\<lambda>m (k, v). AList.update k v m) merged sw_flags)"

definition is_digit :: "char \<Rightarrow> bool" where
  "is_digit c = (let n = (of_char c :: nat) in 48 \<le> n \<and> n \<le> 57)"

definition skip_sign :: "string \<Rightarrow> string" where
  \<comment> \<open>\<open>[+-]?\<close>\<close>
  "skip_sign s = (case s of c # cs \<Rightarrow> (if c = CHR ''+'' \<or> c = CHR ''-'' then cs else s) | [] \<Rightarrow> s)"

definition is_numeric_string :: "string \<Rightarrow> bool" where
  \<comment> \<open>\<open>re.fullmatch(r'[+-]?\d+(\.\d+)?([eE][+-]?\d+)?', s)\<close>\<close>
  "is_numeric_string s =
     (if s = [] then False
      else let r = skip_sign s in
        if takeWhile is_digit r = [] then False
        else let r = dropWhile is_digit r;
                 r = (case r of
                        c # cs \<Rightarrow> (if c = CHR ''.'' \<and> takeWhile is_digit cs \<noteq> []
                                   then dropWhile is_digit cs else r)
                      | [] \<Rightarrow> r);
                 r = (case r of
                        c # cs \<Rightarrow> (if (c = CHR ''e'' \<or> c = CHR ''E'')
                                      \<and> takeWhile is_digit (skip_sign cs) \<noteq> []
                                   then dropWhile is_digit (skip_sign cs) else r)
                      | [] \<Rightarrow> r)
             in r = [])"

definition flags_to_lines :: "flags \<Rightarrow> string list" where
  "flags_to_lines flags =
     foldl (\<lambda>parts (k, v).
              if v = [] then parts @ [''-D'' @ k]
              else if v \<in> set [''ON'', ''OFF''] \<or> is_numeric_string v
                   then parts @ [''-D'' @ k @ ''='' @ v]
                   else parts @ [''-D'' @ k @ ''='' @ v])
           [] flags"

definition hw_filename_base_from_hw_flags :: "flags \<Rightarrow> nat \<Rightarrow> string" where
  \<comment> \<open>the values of a flag map are strings, so \<open>v is not None\<close> holds for each\<close>
  "hw_filename_base_from_hw_flags hw_flags hw_index =
     (let vals = map (\<lambda>v. sanitize_value_for_filename (JStr v))
                     (filter (\<lambda>v. py_strip (py_str (JStr v)) \<noteq> []) (map snd hw_flags))
      in if vals \<noteq> [] then py_join ''_'' vals else ''hw'' @ str_int (int hw_index))"


subsection \<open>main\<close>

text \<open>
  The command line after \<open>argparse\<close>, and what the run finds outside the program:
  the result of opening and parsing the input file, whether \<open>os.makedirs\<close> raises
  \<open>OSError\<close> (with its message and the diagnostic lines that can be printed after it), and
  for which paths \<open>open(path, 'w')\<close> raises \<open>OSError\<close>.
\<close>

record args =
  input :: string
  outdir :: string
  dry_run :: bool

datatype loaded = FileNotFoundError | JSONDecodeError string | Loaded json

record env =
  load :: loaded
  makedirs_error :: "string option"
  makedirs_diag :: "string list"
  open_error :: "string \<Rightarrow> string option"

text \<open>
  What the run does to the outside: the texts printed to standard output and to standard
  error, one per \<open>print\<close>, the directories \<open>os.makedirs\<close> was called on with success, and
  the files written, in order, each with its path and content.
\<close>

record world =
  stdout :: "string list"
  stderr :: "string list"
  made_dirs :: "string list"
  files :: "(string \<times> string) list"

datatype status = Returned | SysExit nat | Uncaught string

definition os_path_join :: "string \<Rightarrow> string \<Rightarrow> string" where
  \<comment> \<open>\<open>os.path.join(a, b)\<close> of \<open>posixpath\<close>\<close>
  "os_path_join a b =
     (if py_startswith b ''/'' then b
      else if a = [] \<or> last a = CHR ''/'' then a @ b
      else a @ ''/'' @ b)"

definition sw_filename :: "string \<Rightarrow> nat \<Rightarrow> json \<Rightarrow> string" where
  \<comment> \<open>lines 198 to 206: the file name of the software entry at \<open>sw_index\<close>,
      \<open>sw_name_raw\<close> being \<open>sw.get('name')\<close>\<close>
  "sw_filename hw_base sw_index sw_name_raw =
     (if sw_name_raw \<noteq> JNull \<and> py_strip (py_str sw_name_raw) \<noteq> []
      then hw_base @ ''_'' @ sanitize_value_for_filename sw_name_raw @ ''.txt''
      else if sw_index = 0 then hw_base @ ''.txt''
      else hw_base @ ''_sw-conf'' @ str_int (int sw_index) @ ''.txt'')"

text \<open>
  The two loops of \<open>main\<close> never read what they have printed or written, so each is
  modelled as the list of the pairs (file name, lines) it hands to the output step, in the
  order of the iteration; \<open>emit\<close> is that output step, which the source writes out twice
  (lines 208 to 221 and 224 to 235).
\<close>

fun sw_loop :: "flags \<Rightarrow> string \<Rightarrow> nat \<Rightarrow> json list \<Rightarrow> (string \<times> string list) list" where
  \<comment> \<open>\<open>for sw_index, sw in enumerate(sw_list)\<close>, from \<open>sw_index\<close> on\<close>
  "sw_loop hw_flags hw_base sw_index [] = []"
| "sw_loop hw_flags hw_base sw_index (sw # rest) =
     (case sw of
        JObj d \<Rightarrow>
          (let sw_name_raw = dict_get d ''name'' JNull;
               sw_flags_raw = (if is_dict (dict_get d ''sw_flags'' (JObj []))
                               then dict_get d ''sw_flags'' (JObj []) else JObj []);
               sw_flags = collect_dict_flags sw_flags_raw;
               merged = merge_flags hw_flags sw_flags;
               filename = sw_filename hw_base sw_index sw_name_raw
           in [(filename, flags_to_lines merged)])
      | _ \<Rightarrow> [])
     @ sw_loop hw_flags hw_base (Suc sw_index) rest"

definition hw_body :: "nat \<Rightarrow> json \<Rightarrow> (string \<times> string list) list" where
  \<comment> \<open>the body of \<open>for hw_index, hw in enumerate(hw_list)\<close>\<close>
  "hw_body hw_index hw =
     (case hw of
        JObj d \<Rightarrow>
          (let hw_flags_raw = (if is_dict (dict_get d ''hw_flags'' (JObj []))
                               then dict_get d ''hw_flags'' (JObj []) else JObj []);
               hw_flags = collect_dict_flags hw_flags_raw;
               hw_base = hw_filename_base_from_hw_flags hw_flags hw_index
           in case dict_get d ''sw_configuration_list'' JNull of
                JArr sw_list \<Rightarrow>
                  (if sw_list \<noteq> [] then sw_loop hw_flags hw_base 0 sw_list
                   else [(hw_base @ ''.txt'', flags_to_lines hw_flags)])
              | _ \<Rightarrow> [(hw_base @ ''.txt'', flags_to_lines hw_flags)])
      | _ \<Rightarrow> [])"

fun hw_loop :: "nat \<Rightarrow> json list \<Rightarrow> (string \<times> string list) list" where
  "hw_loop hw_index [] = []"
| "hw_loop hw_index (hw # rest) = hw_body hw_index hw @ hw_loop (Suc hw_index) rest"

definition emit :: "env \<Rightarrow> args \<Rightarrow> world \<Rightarrow> string \<times> string list \<Rightarrow> world" where
  "emit e a w art =
     (let out_path = os_path_join (outdir a) (fst art); lines = snd art in
      if dry_run a
      then let combined = (if lines \<noteq> [] then py_join [CHR 0x0A] lines else ''(no flags)'')
           in w\<lparr>stdout := stdout w @ [''[DRY RUN] '' @ out_path @ '' -> '' @ combined]\<rparr>
      else (case open_error e out_path of
              None \<Rightarrow> w\<lparr>files := files w @ [(out_path, py_join [CHR 0x0A] lines @ [CHR 0x0A])]\<rparr>
            | Some msg \<Rightarrow>
                w\<lparr>stderr := stderr w @ [''Error: failed to write file '' @ [CHR 0x27] @ out_path
                                        @ [CHR 0x27] @ '': '' @ msg]\<rparr>))"

definition report :: "args \<Rightarrow> world \<Rightarrow> world" where
  \<comment> \<open>lines 237 to 245; \<open>created_files\<close> holds the paths of the files written\<close>
  "report a w =
     (let created_files = map fst (files w) in
      if dry_run a then w\<lparr>stdout := stdout w @ [''Dry run completed.'']\<rparr>
      else if created_files \<noteq> []
      then w\<lparr>stdout := stdout w
                 @ [''Created files ('' @ str_int (int (length created_files)) @ ''):'']
                 @ map (\<lambda>p. '' - '' @ p) created_files\<rparr>
      else w\<lparr>stdout := stdout w @ [''No files were created.'']\<rparr>)"

definition world0 :: world where
  "world0 = \<lparr>stdout = [], stderr = [], made_dirs = [], files = []\<rparr>"

definition main :: "env \<Rightarrow> args \<Rightarrow> status \<times> world" where
  "main e a =
     (case load e of
        FileNotFoundError \<Rightarrow>
          (SysExit 2, world0\<lparr>stderr := [''Error: input file '' @ [CHR 0x27] @ input a
                                          @ [CHR 0x27] @ '' not found.'']\<rparr>)
      | JSONDecodeError msg \<Rightarrow>
          (SysExit 2, world0\<lparr>stderr := [''Error: failed to parse JSON in '' @ [CHR 0x27] @ input a
                                          @ [CHR 0x27] @ '': '' @ msg]\<rparr>)
      | Loaded data \<Rightarrow>
          (case data of
             JObj d \<Rightarrow>
               (case dict_get d ''hw_configuration_list'' JNull of
                  JArr hw_list \<Rightarrow>
                    (case makedirs_error e of
                       Some msg \<Rightarrow>
                         (SysExit 3,
                          world0\<lparr>stderr := [''Error: failed to create output directory ''
                                             @ [CHR 0x27] @ outdir a @ [CHR 0x27] @ '': '' @ msg]
                                            @ makedirs_diag e\<rparr>)
                     | None \<Rightarrow>
                         (Returned,
                          report a (foldl (emit e a) (world0\<lparr>made_dirs := [outdir a]\<rparr>)
                                          (hw_loop 0 hw_list))))
                | _ \<Rightarrow>
                    (SysExit 2,
                     world0\<lparr>stderr := [''Error: '' @ [CHR 0x27] @ ''hw_configuration_list''
                                        @ [CHR 0x27]
                                        @ '' not found or is not a list in the input JSON.'']\<rparr>))
           | _ \<Rightarrow> (Uncaught ''AttributeError'', world0)))"


section \<open>build\_artifact\_name.py\<close>

definition sanitize :: "string \<Rightarrow> string" where
  "sanitize s = (if s \<noteq> [] then py_lower (py_replace CHR ''.'' CHR ''-'' s) else [])"

fun hw_scan :: "string \<Rightarrow> string \<Rightarrow> string list \<Rightarrow> nat \<Rightarrow> string list \<Rightarrow> string option" where
  \<comment> \<open>\<open>for i, p in enumerate(parts_s)\<close>, from \<open>i\<close> on; \<open>None\<close> when the loop ends
      without returning\<close>
  "hw_scan project_s tag_s parts_s i [] = None"
| "hw_scan project_s tag_s parts_s i (p # rest) =
     (if py_startswith p ''hw''
      then let new_parts = take (i + 1) parts_s @ [tag_s] @ drop (i + 1) parts_s
           in Some (project_s @ ''_'' @ py_join ''_'' new_parts)
      else hw_scan project_s tag_s parts_s (Suc i) rest)"

definition build_artifact_name :: "string \<Rightarrow> string \<Rightarrow> string \<Rightarrow> string" where
  "build_artifact_name project configuration tag =
     (let project_s = sanitize project;
          tag_s = sanitize tag;
          parts = (if configuration \<noteq> [] then py_split CHR ''_'' configuration else []);
          parts_s = map sanitize parts
      in case hw_scan project_s tag_s parts_s 0 parts_s of
           Some name \<Rightarrow> name
         | None \<Rightarrow>
             if parts_s \<noteq> [] then project_s @ ''_'' @ tag_s @ ''_'' @ py_join ''_'' parts_s
             else project_s @ ''_'' @ tag_s)"


section \<open>The specification's wording\<close>

text \<open>
  The artifact name as the specification describes it: the parts before the hardware
  marker, the marker, the tag, the parts after it.
\<close>

definition spec_artifact_name :: "string \<Rightarrow> string \<Rightarrow> string \<Rightarrow> string" where
  "spec_artifact_name project configuration tag =
     (let project_s = sanitize project;
          tag_s = sanitize tag;
          parts_s = map sanitize (if configuration = [] then [] else py_split CHR ''_'' configuration);
          before = takeWhile (\<lambda>p. \<not> py_startswith p ''hw'') parts_s
      in case dropWhile (\<lambda>p. \<not> py_startswith p ''hw'') parts_s of
           marker # rest \<Rightarrow> py_join ''_'' (project_s # before @ [marker, tag_s] @ rest)
         | [] \<Rightarrow> py_join ''_'' (project_s # tag_s # parts_s))"

text \<open>The line of one flag, as the specification gives it.\<close>

definition render_line :: "string \<times> string \<Rightarrow> string" where
  "render_line kv = (if snd kv = [] then ''-D'' @ fst kv else ''-D'' @ fst kv @ ''='' @ snd kv)"

text \<open>A run in which no system call fails, and two command lines, for concrete instances.\<close>

definition env_ok :: "json \<Rightarrow> env" where
  "env_ok doc =
     \<lparr>load = Loaded doc, makedirs_error = None, makedirs_diag = [], open_error = (\<lambda>p. None)\<rparr>"

definition args_write :: args where
  "args_write = \<lparr>input = ''in.json'', outdir = ''out'', dry_run = False\<rparr>"


text \<open>
  The flag map of a JSON value as the specification describes it: the members of an object
  in the order of their keys, those with a string, number, boolean or null value only,
  booleans as \<open>ON\<close> and \<open>OFF\<close>, null as the empty string, the others as
  \<open>str\<close> gives them; nothing for a value that is not an object.
\<close>

definition spec_flag_map :: "json \<Rightarrow> flags" where
  "spec_flag_map d =
     (case d of
        JObj kvs \<Rightarrow>
          map (\<lambda>(k, v). (k, case v of
                               JBool b \<Rightarrow> (if b then ''ON'' else ''OFF'')
                             | JNull \<Rightarrow> []
                             | JStr s \<Rightarrow> s
                             | JInt i \<Rightarrow> str_int i
                             | JFloat r \<Rightarrow> r
                             | _ \<Rightarrow> []))
              (filter (\<lambda>(k, v). case v of JArr _ \<Rightarrow> False | JObj _ \<Rightarrow> False | _ \<Rightarrow> True)
                      (sort_key fst kvs))
      | _ \<Rightarrow> [])"

text \<open>The keys of a Python \<open>dict\<close> are distinct.\<close>

definition wf_dict :: "json \<Rightarrow> bool" where
  "wf_dict d = (case d of JObj kvs \<Rightarrow> distinct (map fst kvs) | _ \<Rightarrow> True)"

text \<open>The body of the loop of \<open>collect_dict_flags\<close>.\<close>

definition collect_step :: "(string \<times> json) list \<Rightarrow> flags \<Rightarrow> string \<Rightarrow> flags" where
  "collect_step kvs = (\<lambda>out k.
                   case map_of kvs k of
                     None \<Rightarrow> out
                   | Some v \<Rightarrow> if is_primitive v then AList.update k (stringify_primitive v) out
                              else out)"

text \<open>
  Names for what \<open>main\<close> computes for one entry: the flag map of a software entry and of
  a hardware entry, and the file name base of the hardware entry at position \<open>N\<close>.
\<close>

definition sw_flags_of :: "(string \<times> json) list \<Rightarrow> flags" where
  "sw_flags_of d =
     collect_dict_flags (if is_dict (dict_get d ''sw_flags'' (JObj []))
                         then dict_get d ''sw_flags'' (JObj []) else JObj [])"



text \<open>
  The file name of a software entry by its name and its position \<open>M\<close> in the list; a
  name is present when it is not null and not blank once converted to a string.
\<close>

definition is_named :: "json \<Rightarrow> bool" where
  "is_named name \<longleftrightarrow> name \<noteq> JNull \<and> py_strip (py_str name) \<noteq> []"

definition spec_sw_filename :: "string \<Rightarrow> nat \<Rightarrow> json \<Rightarrow> string" where
  "spec_sw_filename hw_base M name =
     (if is_named name then hw_base @ ''_'' @ sanitize_value_for_filename name @ ''.txt''
      else if M = 0 then hw_base @ ''.txt''
      else hw_base @ ''_sw-conf'' @ str_nat M @ ''.txt'')"

text \<open>What the entry at position \<open>fst p\<close> of a software list hands to the output step.\<close>

definition sw_artifact :: "flags \<Rightarrow> string \<Rightarrow> nat \<times> json \<Rightarrow> (string \<times> string list) list" where
  "sw_artifact hw_flags hw_base p =
     (case snd p of
        JObj d \<Rightarrow> [(spec_sw_filename hw_base (fst p) (dict_get d ''name'' JNull),
                    flags_to_lines (merge_flags hw_flags (sw_flags_of d)))]
      | _ \<Rightarrow> [])"

text \<open>Concrete documents and entries.\<close>

definition doc_named_first :: json where
  "doc_named_first =
     JObj [(''hw_configuration_list'',
            JArr [JObj [(''sw_configuration_list'',
                         JArr [JObj [(''name'', JStr ''a'')], JObj []])]])]"

definition doc_blank_name :: json where
  "doc_blank_name =
     JObj [(''hw_configuration_list'',
            JArr [JObj [(''sw_configuration_list'',
                         JArr [JObj [(''name'', JStr '' '')]])]])]"






text \<open>
  Reading a line back as the specification says: remove the prefix \<open>-D\<close> and split at the
  first \<open>=\<close>; without \<open>=\<close> the value is absent. \<open>flag_pair\<close> is the pair a flag is
  expected to read back as: the value is absent when the flag value is the empty string.
\<close>

definition parse_flag_line :: "string \<Rightarrow> (string \<times> string option) option" where
  "parse_flag_line l =
     (if py_startswith l ''-D''
      then let rest = drop 2 l;
               key = takeWhile (\<lambda>c. c \<noteq> CHR ''='') rest;
               tail = dropWhile (\<lambda>c. c \<noteq> CHR ''='') rest
           in Some (key, if tail = [] then None else Some (tl tail))
      else None)"

definition flag_pair :: "string \<times> string \<Rightarrow> string \<times> string option" where
  "flag_pair kv = (fst kv, if snd kv = [] then None else Some (snd kv))"

text \<open>
  The lines of a file: its content split at the newline character, the last newline
  ending the last line. A flag is safe for a line when its key holds no \<open>=\<close> and neither
  its key nor its value holds a newline.
\<close>

definition file_lines :: "string \<Rightarrow> string list" where
  "file_lines content =
     (let pieces = py_split (CHR 0x0A) content
      in if last pieces = [] then butlast pieces else pieces)"

definition line_safe :: "string \<times> string \<Rightarrow> bool" where
  "line_safe kv \<longleftrightarrow>
     CHR ''='' \<notin> set (fst kv) \<and> CHR 0x0A \<notin> set (fst kv) \<and> CHR 0x0A \<notin> set (snd kv)"

definition flags_sample :: flags where
  "flags_sample = [(''BOARD'', ''nucleo''), (''DEBUG'', []), (''OPT'', ''a=b'')]"

text \<open>
  The file name base as the amended wording gives it: one token for each value of the flag
  map that is not blank, in the order of the flag map, the tokens joined with \<open>_\<close>;
  \<open>hw{N}\<close> when there is no token.
\<close>

definition spec_hw_base :: "flags \<Rightarrow> nat \<Rightarrow> string" where
  "spec_hw_base flags N =
     (let tokens = map (\<lambda>kv. sanitize_value_for_filename (JStr (snd kv)))
                       (filter (\<lambda>kv. py_strip (snd kv) \<noteq> []) flags)
      in if tokens = [] then ''hw'' @ str_nat N else py_join ''_'' tokens)"

definition hw_flags_sample :: "(string \<times> json) list" where
  "hw_flags_sample =
     [(''OPT'', JBool True), (''BOARD'', JStr ''Nucleo_L4''), (''X'', JNull), (''PAD'', JStr ''!!'')]"


section \<open>Proofs\<close>

subsection \<open>The artifact name\<close>

lemma py_join_Cons: "xs \<noteq> [] \<Longrightarrow> py_join sep (x # xs) = x @ sep @ py_join sep xs"
  by (cases xs) simp_all

lemma hw_scan_none:
  "\<forall>p\<in>set suf. \<not> py_startswith p ''hw'' \<Longrightarrow> hw_scan project_s tag_s parts_s i suf = None"
  by (induction suf arbitrary: i) simp_all

lemma hw_scan_some:
  "\<forall>p\<in>set bef. \<not> py_startswith p ''hw'' \<Longrightarrow> py_startswith m ''hw'' \<Longrightarrow>
   parts_s = pre @ bef @ m # rest \<Longrightarrow> i = length pre \<Longrightarrow>
   hw_scan project_s tag_s parts_s i (bef @ m # rest) =
     Some (project_s @ ''_'' @ py_join ''_'' (pre @ bef @ [m, tag_s] @ rest))"
proof (induction bef arbitrary: pre i)
  case Nil
  then show ?case by simp
next
  case (Cons p bef)
  have "hw_scan project_s tag_s parts_s (Suc i) (bef @ m # rest) =
     Some (project_s @ ''_'' @ py_join ''_'' ((pre @ [p]) @ bef @ [m, tag_s] @ rest))"
    using Cons.prems by (intro Cons.IH) simp_all
  with Cons.prems show ?case by simp
qed

text \<open>
  C5: \<open>build_artifact_name\<close> sanitizes the project and the tag, splits the
  configuration on \<open>_\<close> and sanitizes each part; the sanitized tag is inserted right after
  the first part that starts with \<open>hw\<close>, and the sanitized project and all parts are joined
  with \<open>_\<close>; when no part starts with \<open>hw\<close> the result is project, tag and the parts
  joined with \<open>_\<close>, which is \<open>project_tag\<close> when there is no part. The example of the
  specification evaluates to \<open>my-proj_hw_v1-2-3_board_debug\<close>.
\<close>

theorem build_artifact_name_spec:
  "build_artifact_name project configuration tag = spec_artifact_name project configuration tag
   \<and> build_artifact_name ''My.Proj'' ''hw_board_debug'' ''v1.2.3'' = ''my-proj_hw_v1-2-3_board_debug''"
proof
  define parts_s where
    "parts_s = map sanitize (if configuration = [] then [] else py_split CHR ''_'' configuration)"
  define P where "P = (\<lambda>p. \<not> py_startswith p ''hw'')"
  have b: "build_artifact_name project configuration tag =
      (case hw_scan (sanitize project) (sanitize tag) parts_s 0 parts_s of
         Some name \<Rightarrow> name
       | None \<Rightarrow> if parts_s \<noteq> []
                 then sanitize project @ ''_'' @ sanitize tag @ ''_'' @ py_join ''_'' parts_s
                 else sanitize project @ ''_'' @ sanitize tag)"
    unfolding build_artifact_name_def parts_s_def Let_def
    by (cases "configuration = []") simp_all
  have s: "spec_artifact_name project configuration tag =
      (case dropWhile P parts_s of
         marker # rest \<Rightarrow>
           py_join ''_'' (sanitize project # takeWhile P parts_s @ [marker, sanitize tag] @ rest)
       | [] \<Rightarrow> py_join ''_'' (sanitize project # sanitize tag # parts_s))"
    unfolding spec_artifact_name_def parts_s_def P_def Let_def
    by (cases "configuration = []") simp_all
  show "build_artifact_name project configuration tag = spec_artifact_name project configuration tag"
  proof (cases "dropWhile P parts_s")
    case Nil
    then have "\<forall>p\<in>set parts_s. \<not> py_startswith p ''hw''"
      by (simp add: P_def)
    then have "hw_scan (sanitize project) (sanitize tag) parts_s 0 parts_s = None"
      by (rule hw_scan_none)
    with Nil show ?thesis
      unfolding b s by (cases parts_s) (simp_all add: py_join_Cons)
  next
    case (Cons m rest)
    have split: "parts_s = takeWhile P parts_s @ m # rest"
      using Cons by (simp add: dropWhile_eq_Cons_conv)
    have m: "py_startswith m ''hw''"
      using Cons by (simp add: dropWhile_eq_Cons_conv P_def)
    have bef: "\<forall>p\<in>set (takeWhile P parts_s). \<not> py_startswith p ''hw''"
      using set_takeWhileD [of _ P parts_s] by (auto simp: P_def)
    have "hw_scan (sanitize project) (sanitize tag) parts_s 0 (takeWhile P parts_s @ m # rest) =
       Some (sanitize project @ ''_'' @ py_join ''_''
               ([] @ takeWhile P parts_s @ [m, sanitize tag] @ rest))"
      using bef m split by (intro hw_scan_some) simp_all
    then have "hw_scan (sanitize project) (sanitize tag) parts_s 0 parts_s =
       Some (sanitize project @ ''_'' @ py_join ''_'' (takeWhile P parts_s @ [m, sanitize tag] @ rest))"
      using split by simp
    with Cons show ?thesis
      unfolding b s by (simp add: py_join_Cons)
  qed
  show "build_artifact_name ''My.Proj'' ''hw_board_debug'' ''v1.2.3'' = ''my-proj_hw_v1-2-3_board_debug''"
    by code_simp
qed

subsection \<open>Rendering a flag map\<close>

lemma flags_to_lines_foldl:
  "foldl (\<lambda>parts (k, v).
              if v = [] then parts @ [''-D'' @ k]
              else if v \<in> set [''ON'', ''OFF''] \<or> is_numeric_string v
                   then parts @ [''-D'' @ k @ ''='' @ v]
                   else parts @ [''-D'' @ k @ ''='' @ v]) acc flags
   = acc @ map render_line flags"
  by (induction flags arbitrary: acc) (auto simp: render_line_def)

lemma flags_to_lines_map: "flags_to_lines flags = map render_line flags"
  unfolding flags_to_lines_def by (simp add: flags_to_lines_foldl)

lemma py_join_terminated:
  "ls \<noteq> [] \<Longrightarrow> py_join sep ls @ sep = concat (map (\<lambda>l. l @ sep) ls)"
  by (induction sep ls rule: py_join.induct) simp_all

text \<open>
  C8: rendering gives one line per key, in the order of the flag map: \<open>-DKEY\<close> when the
  value is the empty string and \<open>-DKEY=VALUE\<close> otherwise, the value written as it is. The
  content of the file written is the lines joined by a newline, followed by one newline:
  each line of a non-empty flag map is terminated by exactly one newline.
\<close>

theorem flags_to_lines_render:
  "flags_to_lines flags = map render_line flags
   \<and> length (flags_to_lines flags) = length flags
   \<and> (\<not> dry_run a \<and> open_error e (os_path_join (outdir a) fn) = None \<longrightarrow>
        files (emit e a w (fn, flags_to_lines flags)) =
          files w @ [(os_path_join (outdir a) fn,
                      py_join [CHR 0x0A] (map render_line flags) @ [CHR 0x0A])])
   \<and> (flags \<noteq> [] \<longrightarrow>
        py_join [CHR 0x0A] (map render_line flags) @ [CHR 0x0A] =
          concat (map (\<lambda>kv. render_line kv @ [CHR 0x0A]) flags))"
proof (intro conjI impI)
  show "flags_to_lines flags = map render_line flags" by (rule flags_to_lines_map)
  show "length (flags_to_lines flags) = length flags" by (simp add: flags_to_lines_map)
next
  assume "\<not> dry_run a \<and> open_error e (os_path_join (outdir a) fn) = None"
  then show "files (emit e a w (fn, flags_to_lines flags)) =
          files w @ [(os_path_join (outdir a) fn,
                      py_join [CHR 0x0A] (map render_line flags) @ [CHR 0x0A])]"
    by (simp add: emit_def flags_to_lines_map Let_def)
next
  assume "flags \<noteq> []"
  then show "py_join [CHR 0x0A] (map render_line flags) @ [CHR 0x0A] =
          concat (map (\<lambda>kv. render_line kv @ [CHR 0x0A]) flags)"
    using py_join_terminated [of "map render_line flags" "[CHR 0x0A]"] by (simp add: comp_def)
qed

theorem flags_to_lines_render_witness:
  "flags_to_lines [(''A'', []), (''B'', ''x y'')] = [''-DA'', ''-DB=x y'']
   \<and> files (emit (env_ok JNull) args_write world0
              (''f.txt'', flags_to_lines [(''A'', []), (''B'', ''x y'')]))
     = [(''out/f.txt'', ''-DA'' @ [CHR 0x0A] @ ''-DB=x y'' @ [CHR 0x0A])]"
proof -
  let ?F = "[(''A'', []), (''B'', ''x y'')]"
  note t = flags_to_lines_render [of ?F args_write "env_ok JNull" "''f.txt''" world0]
  have h: "\<not> dry_run args_write
           \<and> open_error (env_ok JNull) (os_path_join (outdir args_write) ''f.txt'') = None"
    by (simp add: env_ok_def args_write_def)
  have ne: "?F \<noteq> []" by simp
  from t have 1: "flags_to_lines ?F = map render_line ?F" by blast
  from t h have 2: "files (emit (env_ok JNull) args_write world0 (''f.txt'', flags_to_lines ?F)) =
          files world0 @ [(os_path_join (outdir args_write) ''f.txt'',
                      py_join [CHR 0x0A] (map render_line ?F) @ [CHR 0x0A])]" by blast
  have 3: "map render_line ?F = [''-DA'', ''-DB=x y'']"
    by (simp add: render_line_def)
  have 4: "files world0 @ [(os_path_join (outdir args_write) ''f.txt'',
                      py_join [CHR 0x0A] (map render_line ?F) @ [CHR 0x0A])]
           = [(''out/f.txt'', ''-DA'' @ [CHR 0x0A] @ ''-DB=x y'' @ [CHR 0x0A])]"
    by (simp add: render_line_def world0_def os_path_join_def py_startswith_def args_write_def)
  show ?thesis using 1 2 3 4 by (simp only:)
qed

subsection \<open>Building a flag map\<close>

lemma update_fresh: "k \<notin> fst ` set al \<Longrightarrow> AList.update k v al = al @ [(k, v)]"
  by (induction al) auto

lemma map_insort_key: "map f (insort_key f x xs) = insort (f x) (map f xs)"
  by (induction xs) auto

lemma map_sort_key: "map f (sort_key f xs) = sort (map f xs)"
  by (induction xs) (simp_all add: map_insort_key)

lemma collect_foldl:
  "distinct ks \<Longrightarrow> set ks \<inter> fst ` set out = {} \<Longrightarrow>
   foldl (collect_step kvs) out ks =
     out @ map (\<lambda>k. (k, stringify_primitive (the (map_of kvs k))))
               (filter (\<lambda>k. case map_of kvs k of None \<Rightarrow> False | Some v \<Rightarrow> is_primitive v) ks)"
proof (induction ks arbitrary: out)
  case Nil
  then show ?case by simp
next
  case (Cons k ks)
  show ?case
  proof (cases "case map_of kvs k of None \<Rightarrow> False | Some v \<Rightarrow> is_primitive v")
    case True
    then obtain v where v: "map_of kvs k = Some v" "is_primitive v"
      by (auto split: option.splits)
    have step: "collect_step kvs out k = out @ [(k, stringify_primitive v)]"
      using v Cons.prems by (simp add: collect_step_def update_fresh)
    have "foldl (collect_step kvs) (out @ [(k, stringify_primitive v)]) ks =
          (out @ [(k, stringify_primitive v)]) @
          map (\<lambda>k. (k, stringify_primitive (the (map_of kvs k))))
              (filter (\<lambda>k. case map_of kvs k of None \<Rightarrow> False | Some v \<Rightarrow> is_primitive v) ks)"
      using Cons.prems by (intro Cons.IH) auto
    with step v show ?thesis by simp
  next
    case False
    then have step: "collect_step kvs out k = out"
      by (auto simp: collect_step_def split: option.splits)
    have "foldl (collect_step kvs) out ks =
          out @ map (\<lambda>k. (k, stringify_primitive (the (map_of kvs k))))
              (filter (\<lambda>k. case map_of kvs k of None \<Rightarrow> False | Some v \<Rightarrow> is_primitive v) ks)"
      using Cons.prems by (intro Cons.IH) auto
    with step False show ?thesis by simp
  qed
qed

lemma collect_dict_flags_keys:
  "collect_dict_flags (JObj kvs) = foldl (collect_step kvs) [] (sort (map fst kvs))"
  by (simp add: collect_dict_flags_def collect_step_def)

lemma sorted_pairs_lookup:
  assumes "distinct (map fst kvs)"
  shows "map (\<lambda>k. (k, the (map_of kvs k))) (sort (map fst kvs)) = sort_key fst kvs"
proof -
  have "map ((\<lambda>k. (k, the (map_of kvs k))) \<circ> fst) (sort_key fst kvs) = sort_key fst kvs"
  proof -
    have "\<And>p. p \<in> set (sort_key fst kvs) \<Longrightarrow> (fst p, the (map_of kvs (fst p))) = p"
    proof -
      fix p assume "p \<in> set (sort_key fst kvs)"
      then have "(fst p, snd p) \<in> set kvs" by simp
      with assms have "map_of kvs (fst p) = Some (snd p)" by (rule map_of_is_SomeI)
      then show "(fst p, the (map_of kvs (fst p))) = p" by simp
    qed
    then show ?thesis by (intro map_idI) (simp add: comp_def)
  qed
  then have "map (\<lambda>k. (k, the (map_of kvs k))) (map fst (sort_key fst kvs)) = sort_key fst kvs"
    by simp
  then show ?thesis by (simp only: map_sort_key)
qed

lemma stringify_primitive_cases:
  "is_primitive v \<Longrightarrow> stringify_primitive v =
     (case v of JBool b \<Rightarrow> (if b then ''ON'' else ''OFF'') | JNull \<Rightarrow> [] | JStr s \<Rightarrow> s
      | JInt i \<Rightarrow> str_int i | JFloat r \<Rightarrow> r | _ \<Rightarrow> [])"
  by (cases v) (simp_all add: stringify_primitive_def py_str_def is_primitive_def)

lemma collect_dict_flags_filter:
  assumes "distinct (map fst kvs)"
  shows "collect_dict_flags (JObj kvs) =
     map (\<lambda>(k, v). (k, stringify_primitive v)) (filter (\<lambda>(k, v). is_primitive v) (sort_key fst kvs))"
proof -
  have d: "distinct (sort (map fst kvs))" using assms by simp
  have "collect_dict_flags (JObj kvs) =
     map (\<lambda>k. (k, stringify_primitive (the (map_of kvs k))))
         (filter (\<lambda>k. case map_of kvs k of None \<Rightarrow> False | Some v \<Rightarrow> is_primitive v)
                 (sort (map fst kvs)))"
    using collect_foldl [OF d, of "[]" kvs] by (simp add: collect_dict_flags_keys)
  also have "\<dots> = map (\<lambda>(k, v). (k, stringify_primitive v))
       (filter (\<lambda>(k, v). is_primitive v) (map (\<lambda>k. (k, the (map_of kvs k))) (sort (map fst kvs))))"
  proof -
    have "\<And>k. k \<in> set (sort (map fst kvs)) \<Longrightarrow>
         (case map_of kvs k of None \<Rightarrow> False | Some v \<Rightarrow> is_primitive v) = is_primitive (the (map_of kvs k))"
    proof -
      fix k assume "k \<in> set (sort (map fst kvs))"
      then have "k \<in> fst ` set kvs" by simp
      then obtain v where "map_of kvs k = Some v"
        by (metis map_of_eq_None_iff not_Some_eq)
      then show "(case map_of kvs k of None \<Rightarrow> False | Some v \<Rightarrow> is_primitive v) = is_primitive (the (map_of kvs k))"
        by simp
    qed
    then have "filter (\<lambda>k. case map_of kvs k of None \<Rightarrow> False | Some v \<Rightarrow> is_primitive v) (sort (map fst kvs))
       = filter (\<lambda>k. is_primitive (the (map_of kvs k))) (sort (map fst kvs))"
      by (intro filter_cong) auto
    then show ?thesis by (simp add: filter_map comp_def)
  qed
  finally show ?thesis by (simp add: sorted_pairs_lookup [OF assms])
qed

lemma spec_flag_map_filter:
  "spec_flag_map (JObj kvs) =
     map (\<lambda>(k, v). (k, stringify_primitive v)) (filter (\<lambda>(k, v). is_primitive v) (sort_key fst kvs))"
proof -
  have 1: "(\<lambda>(k, v). case v of JArr _ \<Rightarrow> False | JObj _ \<Rightarrow> False | _ \<Rightarrow> True)
        = (\<lambda>(k :: string, v). is_primitive v)"
    by (simp add: is_primitive_def fun_eq_iff)
  show ?thesis
    unfolding spec_flag_map_def json.case 1
    by (intro map_cong refl) (auto simp: stringify_primitive_cases)
qed

text \<open>
  C7: the flag map built from a JSON object goes through the keys of the object in sorted
  order and keeps the members whose value is a string, a number, a boolean or null, with
  booleans as \<open>ON\<close> and \<open>OFF\<close>, null as the empty string and the other primitives
  as \<open>str\<close> gives them; members with an object or array value are dropped, and a value
  that is not an object gives the empty flag map.
\<close>

theorem collect_dict_flags_spec:
  "wf_dict d \<Longrightarrow>
   collect_dict_flags d = spec_flag_map d
   \<and> sorted (map fst (collect_dict_flags d))
   \<and> (\<not> is_dict d \<longrightarrow> collect_dict_flags d = [])"
proof (cases d)
  case (JObj kvs)
  assume "wf_dict d"
  with JObj have dist: "distinct (map fst kvs)" by (simp add: wf_dict_def)
  have eq: "collect_dict_flags d = spec_flag_map d"
    using JObj by (simp add: collect_dict_flags_filter [OF dist] spec_flag_map_filter)
  have "map fst (collect_dict_flags d) = map fst (filter (\<lambda>(k, v). is_primitive v) (sort_key fst kvs))"
    using JObj by (simp add: collect_dict_flags_filter [OF dist] comp_def case_prod_unfold)
  moreover have "sorted (map fst (filter (\<lambda>(k, v). is_primitive v) (sort_key fst kvs)))"
    by (intro sorted_filter) simp
  ultimately have "sorted (map fst (collect_dict_flags d))" by simp
  with eq JObj show ?thesis by (simp add: is_dict_def)
qed (simp_all add: collect_dict_flags_def spec_flag_map_def)

theorem collect_dict_flags_spec_witness:
  "wf_dict (JObj [(''b'', JBool True), (''a'', JStr ''nucleo''), (''c'', JArr []),
                  (''B'', JNull), (''n'', JInt 42), (''o'', JObj [])])
   \<and> collect_dict_flags (JObj [(''b'', JBool True), (''a'', JStr ''nucleo''), (''c'', JArr []),
                  (''B'', JNull), (''n'', JInt 42), (''o'', JObj [])])
     = [(''B'', []), (''a'', ''nucleo''), (''b'', ''ON''), (''n'', ''42'')]"
proof -
  let ?d = "JObj [(''b'', JBool True), (''a'', JStr ''nucleo''), (''c'', JArr []),
                  (''B'', JNull), (''n'', JInt 42), (''o'', JObj [])]"
  have wf: "wf_dict ?d" by (simp add: wf_dict_def)
  have "spec_flag_map ?d = [(''B'', []), (''a'', ''nucleo''), (''b'', ''ON''), (''n'', ''42'')]"
    by code_simp
  with collect_dict_flags_spec [OF wf] wf show ?thesis by simp
qed

subsection \<open>Merging flag maps\<close>

lemma foldl_update_keys:
  "distinct (map fst xs) \<Longrightarrow>
   map fst (foldl (\<lambda>m (k, v). AList.update k v m) acc xs) =
     map fst acc @ filter (\<lambda>k. k \<notin> set (map fst acc)) (map fst xs)"
proof (induction xs arbitrary: acc)
  case Nil
  then show ?case by simp
next
  case (Cons x xs)
  obtain k v where x: "x = (k, v)" by (cases x)
  from Cons.prems x have k: "k \<notin> set (map fst xs)" and d: "distinct (map fst xs)" by auto
  have f: "filter (\<lambda>k'. k' \<noteq> k \<and> k' \<notin> fst ` set acc) (map fst xs)
         = filter (\<lambda>k'. k' \<notin> fst ` set acc) (map fst xs)"
    using k by (intro filter_cong) auto
  have "map fst (foldl (\<lambda>m (k, v). AList.update k v m) (AList.update k v acc) xs) =
     map fst (AList.update k v acc) @ filter (\<lambda>k'. k' \<notin> set (map fst (AList.update k v acc))) (map fst xs)"
    using d by (rule Cons.IH)
  then show ?case using x f by (auto simp: update_keys)
qed

lemma foldl_update_map_of:
  "distinct (map fst xs) \<Longrightarrow>
   map_of (foldl (\<lambda>m (k, v). AList.update k v m) acc xs) = map_of acc ++ map_of xs"
proof (induction xs arbitrary: acc)
  case Nil
  then show ?case by simp
next
  case (Cons x xs)
  obtain k v where x: "x = (k, v)" by (cases x)
  from Cons.prems x have k: "k \<notin> fst ` set xs" and d: "distinct (map fst xs)" by auto
  have "map_of (foldl (\<lambda>m (k, v). AList.update k v m) (AList.update k v acc) xs)
        = map_of (AList.update k v acc) ++ map_of xs"
    using d by (rule Cons.IH)
  also have "\<dots> = map_of acc ++ map_of ((k, v) # xs)"
  proof -
    from k have "map_of xs k = None" by (simp add: map_of_eq_None_iff)
    then show ?thesis
      by (auto simp: update_conv' map_add_def fun_eq_iff split: option.splits)
  qed
  finally show ?case unfolding x by (simp only: foldl_Cons prod.case)
qed

lemma merge_flags_keys:
  assumes "distinct (map fst hw)" "distinct (map fst sw)"
  shows "map fst (merge_flags hw sw) = map fst hw @ filter (\<lambda>k. k \<notin> set (map fst hw)) (map fst sw)"
  using assms by (simp add: merge_flags_def Let_def foldl_update_keys)

lemma merge_flags_map_of:
  assumes "distinct (map fst hw)" "distinct (map fst sw)"
  shows "map_of (merge_flags hw sw) = map_of hw ++ map_of sw"
  using assms by (simp add: merge_flags_def Let_def foldl_update_map_of)

text \<open>
  C6: a flag map has its keys in strictly increasing order. The merged map lists the keys of
  the hardware map, then the keys that the software map alone has, each group sorted; a key
  of the software map has the software value in the merged map, whatever the sizes of the
  two maps, and any other key keeps the hardware value.
\<close>

theorem merge_flags_spec:
  assumes "sorted_wrt (<) (map fst hw)" and "sorted_wrt (<) (map fst sw)"
  shows "map fst (merge_flags hw sw) = map fst hw @ filter (\<lambda>k. k \<notin> set (map fst hw)) (map fst sw)
         \<and> sorted (map fst hw)
         \<and> sorted (filter (\<lambda>k. k \<notin> set (map fst hw)) (map fst sw))
         \<and> (\<forall>k v. map_of sw k = Some v \<longrightarrow> map_of (merge_flags hw sw) k = Some v)
         \<and> (\<forall>k. map_of sw k = None \<longrightarrow> map_of (merge_flags hw sw) k = map_of hw k)"
proof -
  from assms have d: "distinct (map fst hw)" "distinct (map fst sw)"
    and s: "sorted (map fst hw)" "sorted (map fst sw)"
    by (simp_all add: strict_sorted_iff)
  have "sorted (filter (\<lambda>k. k \<notin> set (map fst hw)) (map fst sw))"
    using s(2) sorted_filter [of "\<lambda>x. x" "map fst sw"] by simp
  with d s show ?thesis
    by (simp add: merge_flags_keys merge_flags_map_of map_add_def)
qed

theorem merge_flags_spec_witness:
  "sorted_wrt (<) (map fst [(''A'', ''1''), (''B'', ''2'')])
   \<and> sorted_wrt (<) (map fst [(''B'', ''x''), (''C'', ''y'')])
   \<and> map fst (merge_flags [(''A'', ''1''), (''B'', ''2'')] [(''B'', ''x''), (''C'', ''y'')])
       = [''A'', ''B'', ''C'']
   \<and> map_of (merge_flags [(''A'', ''1''), (''B'', ''2'')] [(''B'', ''x''), (''C'', ''y'')]) ''B''
       = Some ''x''"
proof -
  let ?hw = "[(''A'', ''1''), (''B'', ''2'')]" and ?sw = "[(''B'', ''x''), (''C'', ''y'')]"
  have h: "sorted_wrt (<) (map fst ?hw)" "sorted_wrt (<) (map fst ?sw)"
    by code_simp+
  note t = merge_flags_spec [OF h]
  from t have 1: "map fst (merge_flags ?hw ?sw) = map fst ?hw @ filter (\<lambda>k. k \<notin> set (map fst ?hw)) (map fst ?sw)"
    by blast
  from t have "map_of ?sw ''B'' = Some ''x'' \<longrightarrow> map_of (merge_flags ?hw ?sw) ''B'' = Some ''x''"
    by blast
  then have 2: "map_of (merge_flags ?hw ?sw) ''B'' = Some ''x''" by simp
  have 3: "map fst ?hw @ filter (\<lambda>k. k \<notin> set (map fst ?hw)) (map fst ?sw) = [''A'', ''B'', ''C'']"
    by simp
  show ?thesis using h 1 2 3 by (simp only:)
qed

text \<open>The flag maps that the program builds have their keys in strictly increasing order.\<close>

lemma collect_dict_flags_strict_sorted:
  "wf_dict d \<Longrightarrow> sorted_wrt (<) (map fst (collect_dict_flags d))"
proof (cases d)
  case (JObj kvs)
  assume "wf_dict d"
  with JObj have dist: "distinct (map fst kvs)" by (simp add: wf_dict_def)
  have m: "map fst (collect_dict_flags d) =
           map fst (filter (\<lambda>(k, v). is_primitive v) (sort_key fst kvs))"
    using JObj by (simp add: collect_dict_flags_filter [OF dist] comp_def case_prod_unfold)
  have "sorted (map fst (filter (\<lambda>(k, v). is_primitive v) (sort_key fst kvs)))"
    by (intro sorted_filter) simp
  moreover have "distinct (map fst (filter (\<lambda>(k, v). is_primitive v) (sort_key fst kvs)))"
    using dist by (intro distinct_map_filter) (simp add: map_sort_key)
  ultimately show ?thesis by (simp add: m strict_sorted_iff)
qed (simp_all add: collect_dict_flags_def)

subsection \<open>The loops of main\<close>

lemma str_int_nat: "str_int (int n) = str_nat n"
  by (simp add: str_int_def)

lemma sw_filename_spec_eq: "sw_filename hw_base M name = spec_sw_filename hw_base M name"
  by (simp add: sw_filename_def spec_sw_filename_def is_named_def str_int_nat)

lemma sw_loop_enumerate:
  "sw_loop hw_flags hw_base i sws = concat (map (sw_artifact hw_flags hw_base) (enumerate i sws))"
proof (induction sws arbitrary: i)
  case Nil
  then show ?case by simp
next
  case (Cons sw sws)
  show ?case
    by (cases sw) (simp_all add: Cons.IH sw_artifact_def sw_flags_of_def sw_filename_spec_eq Let_def)
qed


lemma in_enumerate: "M < length xs \<Longrightarrow> (i + M, xs ! M) \<in> set (enumerate i xs)"
  by (simp add: in_set_enumerate_eq)

lemma sw_loop_entry:
  assumes "M < length sws" and "sws ! M = JObj d"
  shows "(spec_sw_filename hw_base M (dict_get d ''name'' JNull),
          flags_to_lines (merge_flags hw_flags (sw_flags_of d)))
         \<in> set (sw_loop hw_flags hw_base 0 sws)"
proof -
  have "(M, JObj d) \<in> set (enumerate 0 sws)"
    using in_enumerate [OF assms(1), of 0] assms(2) by simp
  moreover have "sw_artifact hw_flags hw_base (M, JObj d) =
     [(spec_sw_filename hw_base M (dict_get d ''name'' JNull),
       flags_to_lines (merge_flags hw_flags (sw_flags_of d)))]"
    by (simp add: sw_artifact_def)
  ultimately show ?thesis
    unfolding sw_loop_enumerate by (auto intro!: bexI [of _ "(M, JObj d)"])
qed

text \<open>
  C3, as amended: the software loop hands over, for each entry of the list that is a JSON
  object, one file at the entry's position \<open>M\<close> in the list. An entry whose name is
  present (not null and not blank) gets \<open>{hw_base}_{sanitized_name}.txt\<close> whatever its
  position; an entry without such a name gets \<open>{hw_base}.txt\<close> at position 0 and
  \<open>{hw_base}_sw-conf{M}.txt\<close> at any position \<open>M > 0\<close>.
\<close>

theorem sw_filename_rules:
  "sw_loop hw_flags hw_base 0 sws = concat (map (sw_artifact hw_flags hw_base) (enumerate 0 sws))
   \<and> (M < length sws \<and> sws ! M = JObj d \<longrightarrow>
        (sw_filename hw_base M (dict_get d ''name'' JNull),
         flags_to_lines (merge_flags hw_flags (sw_flags_of d)))
        \<in> set (sw_loop hw_flags hw_base 0 sws))
   \<and> (is_named name \<longrightarrow>
        sw_filename hw_base M name = hw_base @ ''_'' @ sanitize_value_for_filename name @ ''.txt'')
   \<and> (\<not> is_named name \<and> M = 0 \<longrightarrow> sw_filename hw_base M name = hw_base @ ''.txt'')
   \<and> (\<not> is_named name \<and> 0 < M \<longrightarrow>
        sw_filename hw_base M name = hw_base @ ''_sw-conf'' @ str_nat M @ ''.txt'')"
  using sw_loop_entry [of M sws d hw_base hw_flags]
  by (simp add: sw_loop_enumerate sw_filename_spec_eq spec_sw_filename_def)

text \<open>
  C3 as stated fails: after a named entry, the first unnamed entry is at position 1 and
  gets \<open>hw0_sw-conf1.txt\<close>, not \<open>hw0.txt\<close>; and an entry whose name is the non-empty
  string of one space gets \<open>hw0.txt\<close>, not a file named after the sanitized name.
\<close>

theorem sw_filename_counterexample:
  "map fst (files (snd (main (env_ok doc_named_first) args_write)))
     = [''out/hw0_a.txt'', ''out/hw0_sw-conf1.txt'']
   \<and> map fst (files (snd (main (env_ok doc_blank_name) args_write))) = [''out/hw0.txt'']"
  by code_simp

theorem sw_filename_rules_witness:
  "sw_filename ''hw0'' 1 (JStr ''Debug_1'') = ''hw0_debug-1.txt''
   \<and> sw_filename ''hw0'' 0 JNull = ''hw0.txt''
   \<and> sw_filename ''hw0'' 2 (JStr '' '') = ''hw0_sw-conf2.txt''
   \<and> (''hw0_sw-conf1.txt'', []) \<in> set (sw_loop [] ''hw0'' 0 [JInt 3, JObj []])"
proof -
  have n: "is_named (JStr ''Debug_1'')" "\<not> is_named JNull" "\<not> is_named (JStr '' '')"
    by (simp_all add: is_named_def py_str_def py_strip_def strip_chars_def is_space_def)
  have 1: "sw_filename ''hw0'' 1 (JStr ''Debug_1'')
           = ''hw0'' @ ''_'' @ sanitize_value_for_filename (JStr ''Debug_1'') @ ''.txt''"
    using sw_filename_rules [of "[]" "''hw0''" "[]" 1 "[]" "JStr ''Debug_1''"] n by blast
  have 2: "sw_filename ''hw0'' 0 JNull = ''hw0'' @ ''.txt''"
  proof -
    have "\<not> is_named JNull \<and> (0::nat) = 0" using n by simp
    with sw_filename_rules [of "[]" "''hw0''" "[]" 0 "[]" JNull] show ?thesis by blast
  qed
  have 3: "sw_filename ''hw0'' 2 (JStr '' '') = ''hw0'' @ ''_sw-conf'' @ str_nat 2 @ ''.txt''"
  proof -
    have "\<not> is_named (JStr '' '') \<and> (0::nat) < 2" using n by simp
    with sw_filename_rules [of "[]" "''hw0''" "[]" 2 "[]" "JStr '' ''"] show ?thesis by blast
  qed
  have 4: "(sw_filename ''hw0'' 1 (dict_get [] ''name'' JNull),
           flags_to_lines (merge_flags [] (sw_flags_of [])))
          \<in> set (sw_loop [] ''hw0'' 0 [JInt 3, JObj []])"
  proof -
    have "1 < length [JInt 3, JObj []] \<and> [JInt 3, JObj []] ! 1 = JObj []" by simp
    with sw_filename_rules [of "[]" "''hw0''" "[JInt 3, JObj []]" 1 "[]" JNull] show ?thesis by blast
  qed
  have s: "sanitize_value_for_filename (JStr ''Debug_1'') = ''debug-1''" by code_simp
  have t: "str_nat 2 = ''2''" "str_nat 1 = ''1''" by code_simp+
  have 5: "sw_filename ''hw0'' 1 (dict_get [] ''name'' JNull) = ''hw0_sw-conf1.txt''"
    by code_simp
  have 6: "flags_to_lines (merge_flags [] (sw_flags_of [])) = []" by code_simp
  show ?thesis using 1 2 3 4 s t 5 6 by simp
qed





















text \<open>
  C9: a document that is valid JSON but not an object, such as \<open>[]\<close>, has no
  \<open>hw_configuration_list\<close> key. \<open>data.get\<close> raises \<open>AttributeError\<close>, which nothing
  catches: the run ends with a traceback instead of the error report and exit code 2.
\<close>

theorem main_non_object_document:
  "main (env_ok (JArr [])) args_write = (Uncaught ''AttributeError'', world0)"
  by (simp add: main_def env_ok_def)

text \<open>
  For a document that is an object, a missing or non-list \<open>hw_configuration_list\<close> ends
  the run with exit code 2 and one line on standard error, before any directory or file
  is touched.
\<close>

lemma main_missing_list:
  assumes "load e = Loaded (JObj doc)"
    and "case dict_get doc ''hw_configuration_list'' JNull of JArr _ \<Rightarrow> False | _ \<Rightarrow> True"
  shows "fst (main e a) = SysExit 2" and "files (snd (main e a)) = []"
    and "made_dirs (snd (main e a)) = []" and "stdout (snd (main e a)) = []"
    and "length (stderr (snd (main e a))) = 1"
  using assms by (auto simp: main_def world0_def split: json.splits)

subsection \<open>Reading a flag line back\<close>

lemma takeWhile_key: "CHR ''='' \<notin> set k \<Longrightarrow> takeWhile (\<lambda>c. c \<noteq> CHR ''='') (k @ CHR ''='' # v) = k"
  by (induction k) auto

lemma dropWhile_key: "CHR ''='' \<notin> set k \<Longrightarrow> dropWhile (\<lambda>c. c \<noteq> CHR ''='') (k @ CHR ''='' # v) = CHR ''='' # v"
  by (induction k) auto

lemma takeWhile_all: "CHR ''='' \<notin> set k \<Longrightarrow> takeWhile (\<lambda>c. c \<noteq> CHR ''='') k = k"
  by (induction k) auto

lemma dropWhile_all: "CHR ''='' \<notin> set k \<Longrightarrow> dropWhile (\<lambda>c. c \<noteq> CHR ''='') k = []"
  by (induction k) auto

lemma parse_render_line:
  "CHR ''='' \<notin> set (fst kv) \<Longrightarrow> parse_flag_line (render_line kv) = Some (flag_pair kv)"
  by (simp add: parse_flag_line_def render_line_def flag_pair_def py_startswith_def
        takeWhile_key dropWhile_key takeWhile_all dropWhile_all Let_def)

lemma py_split_line:
  "sep \<notin> set l \<Longrightarrow> py_split sep (l @ sep # rest) = l # py_split sep rest"
  by (induction l) (auto split: list.splits)

lemma py_split_terminated:
  "\<forall>l\<in>set ls. sep \<notin> set l \<Longrightarrow> py_split sep (concat (map (\<lambda>l. l @ [sep]) ls)) = ls @ [[]]"
  by (induction ls) (simp_all add: py_split_line)

lemma file_lines_written:
  assumes "ls \<noteq> []" and "\<forall>l\<in>set ls. CHR 0x0A \<notin> set l"
  shows "file_lines (py_join [CHR 0x0A] ls @ [CHR 0x0A]) = ls"
proof -
  have "py_join [CHR 0x0A] ls @ [CHR 0x0A] = concat (map (\<lambda>l. l @ [CHR 0x0A]) ls)"
    using assms(1) by (rule py_join_terminated)
  moreover have "py_split (CHR 0x0A) (concat (map (\<lambda>l. l @ [CHR 0x0A]) ls)) = ls @ [[]]"
    using assms(2) by (rule py_split_terminated)
  ultimately show ?thesis by (simp add: file_lines_def)
qed

lemma render_line_no_newline:
  "line_safe kv \<Longrightarrow> CHR 0x0A \<notin> set (render_line kv)"
  by (auto simp: line_safe_def render_line_def)

text \<open>
  C4, as amended: for a flag map that is not empty, none of whose keys holds \<open>=\<close> and
  none of whose keys or values holds a newline, the lines of the file written are the
  rendered lines, and each reads back as the key and value it was rendered from, the value
  absent when it is the empty string.
\<close>

theorem flag_line_round_trip:
  assumes "flags \<noteq> []" and "\<forall>kv\<in>set flags. line_safe kv"
    and "\<not> dry_run a" and "open_error e (os_path_join (outdir a) fn) = None"
  shows "\<exists>content.
           files (emit e a w (fn, flags_to_lines flags))
             = files w @ [(os_path_join (outdir a) fn, content)]
           \<and> file_lines content = flags_to_lines flags
           \<and> map parse_flag_line (file_lines content) = map (\<lambda>kv. Some (flag_pair kv)) flags"
proof -
  let ?c = "py_join [CHR 0x0A] (flags_to_lines flags) @ [CHR 0x0A]"
  have w: "files (emit e a w (fn, flags_to_lines flags))
             = files w @ [(os_path_join (outdir a) fn, ?c)]"
    using assms(3,4) by (simp add: emit_def Let_def)
  have "flags_to_lines flags \<noteq> []" using assms(1) by (simp add: flags_to_lines_map)
  moreover have "\<forall>l\<in>set (flags_to_lines flags). CHR 0x0A \<notin> set l"
    using assms(2) by (auto simp: flags_to_lines_map render_line_no_newline)
  ultimately have l: "file_lines ?c = flags_to_lines flags" by (rule file_lines_written)
  have "map parse_flag_line (flags_to_lines flags) = map (\<lambda>kv. Some (flag_pair kv)) flags"
    using assms(2) by (simp add: flags_to_lines_map parse_render_line line_safe_def)
  with w l show ?thesis by simp
qed

theorem flag_line_round_trip_witness:
  "files (emit (env_ok JNull) args_write world0 (''f.txt'', flags_to_lines flags_sample))
     = [(''out/f.txt'',
         ''-DBOARD=nucleo'' @ [CHR 0x0A] @ ''-DDEBUG'' @ [CHR 0x0A] @ ''-DOPT=a=b'' @ [CHR 0x0A])]
   \<and> map parse_flag_line
         (file_lines (''-DBOARD=nucleo'' @ [CHR 0x0A] @ ''-DDEBUG'' @ [CHR 0x0A]
                      @ ''-DOPT=a=b'' @ [CHR 0x0A]))
     = [Some (''BOARD'', Some ''nucleo''), Some (''DEBUG'', None), Some (''OPT'', Some ''a=b'')]"
proof -
  let ?c = "''-DBOARD=nucleo'' @ [CHR 0x0A] @ ''-DDEBUG'' @ [CHR 0x0A] @ ''-DOPT=a=b'' @ [CHR 0x0A]"
  have h: "flags_sample \<noteq> []" "\<forall>kv\<in>set flags_sample. line_safe kv"
    "\<not> dry_run args_write"
    "open_error (env_ok JNull) (os_path_join (outdir args_write) ''f.txt'') = None"
    by (simp_all add: flags_sample_def line_safe_def args_write_def env_ok_def)
  from flag_line_round_trip [OF h, of world0] obtain content where
    f: "files (emit (env_ok JNull) args_write world0 (''f.txt'', flags_to_lines flags_sample))
          = files world0 @ [(os_path_join (outdir args_write) ''f.txt'', content)]"
    and p: "map parse_flag_line (file_lines content) = map (\<lambda>kv. Some (flag_pair kv)) flags_sample"
    by blast
  have e: "files (emit (env_ok JNull) args_write world0 (''f.txt'', flags_to_lines flags_sample))
           = [(''out/f.txt'', ?c)]"
    by code_simp
  have "files world0 @ [(os_path_join (outdir args_write) ''f.txt'', content)]
        = [(os_path_join (outdir args_write) ''f.txt'', content)]"
    by (simp add: world0_def)
  with f e have "content = ?c" by simp
  moreover have "map (\<lambda>kv. Some (flag_pair kv)) flags_sample
        = [Some (''BOARD'', Some ''nucleo''), Some (''DEBUG'', None), Some (''OPT'', Some ''a=b'')]"
    by (simp add: flag_pair_def flags_sample_def)
  ultimately show ?thesis using e p by simp
qed

text \<open>
  C4 as stated fails on the file written. A key of a JSON object may hold \<open>=\<close>: the line
  of the flag \<open>A=B\<close> with value \<open>1\<close> reads back as the key \<open>A\<close> with value \<open>B=1\<close>. A
  value may hold a newline: the flag \<open>S\<close> with value \<open>a\<close>, newline, \<open>b\<close> is written as
  two lines, the second of which is no flag line. And the file of the empty flag map holds
  one empty line, which is no flag line.
\<close>

theorem flag_line_round_trip_counterexample:
  "collect_dict_flags (JObj [(''A=B'', JInt 1)]) = [(''A=B'', ''1'')]
   \<and> files (emit (env_ok JNull) args_write world0 (''f.txt'', flags_to_lines [(''A=B'', ''1'')]))
       = [(''out/f.txt'', ''-DA=B=1'' @ [CHR 0x0A])]
   \<and> map parse_flag_line (file_lines (''-DA=B=1'' @ [CHR 0x0A])) = [Some (''A'', Some ''B=1'')]
   \<and> collect_dict_flags (JObj [(''S'', JStr (''a'' @ [CHR 0x0A] @ ''b''))])
       = [(''S'', ''a'' @ [CHR 0x0A] @ ''b'')]
   \<and> files (emit (env_ok JNull) args_write world0
               (''f.txt'', flags_to_lines [(''S'', ''a'' @ [CHR 0x0A] @ ''b'')]))
       = [(''out/f.txt'', ''-DS=a'' @ [CHR 0x0A] @ ''b'' @ [CHR 0x0A])]
   \<and> map parse_flag_line (file_lines (''-DS=a'' @ [CHR 0x0A] @ ''b'' @ [CHR 0x0A]))
       = [Some (''S'', Some ''a''), None]
   \<and> files (emit (env_ok JNull) args_write world0 (''f.txt'', flags_to_lines []))
       = [(''out/f.txt'', [CHR 0x0A])]
   \<and> map parse_flag_line (file_lines [CHR 0x0A]) = [None]"
  by code_simp


subsection \<open>The file name base\<close>

lemma hw_filename_base_eq: "hw_filename_base_from_hw_flags flags N = spec_hw_base flags N"
  by (simp add: hw_filename_base_from_hw_flags_def spec_hw_base_def py_str_def str_int_nat
        filter_map comp_def Let_def)

lemma sanitize_value_nonempty: "sanitize_value_for_filename v \<noteq> []"
  by (simp add: sanitize_value_for_filename_def Let_def)

lemma set_re_sub_runs: "set (re_sub_runs C s) \<subseteq> {c \<in> set s. \<not> C c} \<union> {CHR ''-''}"
proof (induction C s rule: re_sub_runs.induct)
  case (1 C)
  then show ?case by simp
next
  case (2 C c cs)
  show ?case
  proof (cases "C c")
    case True
    with 2 have "set (re_sub_runs C (dropWhile C cs)) \<subseteq> {c \<in> set (dropWhile C cs). \<not> C c} \<union> {CHR ''-''}"
      by simp
    moreover have "set (dropWhile C cs) \<subseteq> set cs" by (rule set_dropWhileD [THEN subsetI])
    ultimately show ?thesis using True by auto
  next
    case False
    with 2 show ?thesis by auto
  qed
qed

lemma set_re_sub_hyphens: "set (re_sub_hyphens s) \<subseteq> set s"
proof (induction s rule: re_sub_hyphens.induct)
  case (3 c d cs)
  have "set (dropWhile (\<lambda>x. x = CHR ''-'') cs) \<subseteq> set cs" by (rule set_dropWhileD [THEN subsetI])
  with 3 show ?case by auto
qed simp_all

lemma set_strip_chars: "set (strip_chars P s) \<subseteq> set s"
proof -
  have "set (dropWhile P (rev (dropWhile P s))) \<subseteq> set (rev (dropWhile P s))"
    by (rule set_dropWhileD [THEN subsetI])
  moreover have "set (dropWhile P s) \<subseteq> set s" by (rule set_dropWhileD [THEN subsetI])
  ultimately show ?thesis by (auto simp: strip_chars_def)
qed

lemma sanitize_value_chars: "c \<in> set (sanitize_value_for_filename v) \<Longrightarrow> filename_char c"
proof -
  assume c: "c \<in> set (sanitize_value_for_filename v)"
  have lit: "\<And>x. x \<in> set ''none'' \<Longrightarrow> filename_char x"
    "\<And>x. x \<in> set ''empty'' \<Longrightarrow> filename_char x"
    by (auto simp: filename_char_def)
  have clean: "\<And>s x. x \<in> set (strip_chars (\<lambda>c. c = CHR ''-'')
                  (re_sub_hyphens (re_sub_runs (\<lambda>c. \<not> filename_char c) s))) \<Longrightarrow> filename_char x"
  proof -
    fix s x
    assume "x \<in> set (strip_chars (\<lambda>c. c = CHR ''-'')
                  (re_sub_hyphens (re_sub_runs (\<lambda>c. \<not> filename_char c) s)))"
    then have "x \<in> set (re_sub_runs (\<lambda>c. \<not> filename_char c) s)"
      using set_strip_chars set_re_sub_hyphens by blast
    then have "x \<in> {c \<in> set s. \<not> \<not> filename_char c} \<union> {CHR ''-''}"
      using set_re_sub_runs [of "\<lambda>c. \<not> filename_char c" s] by blast
    then show "filename_char x" by (auto simp: filename_char_def)
  qed
  from c show ?thesis
    unfolding sanitize_value_for_filename_def Let_def
    by (auto split: if_splits intro: clean lit simp del: set_simps)
qed

lemma py_strip_Nil: "py_strip [] = []"
  by (simp add: py_strip_def strip_chars_def)

lemma usable_values_without_null:
  "filter (\<lambda>v. py_strip v \<noteq> [])
     (map (\<lambda>(k, v). stringify_primitive v)
        (filter (\<lambda>(k, v). is_primitive v) (filter (\<lambda>(k, v). v \<noteq> JNull) xs)))
   = filter (\<lambda>v. py_strip v \<noteq> [])
       (map (\<lambda>(k, v). stringify_primitive v) (filter (\<lambda>(k :: string, v). is_primitive v) xs))"
  by (induction xs) (auto simp: stringify_primitive_def py_strip_Nil)

lemma hw_base_values_usable:
  "filter (\<lambda>v. py_strip v \<noteq> []) (map snd flags) = filter (\<lambda>v. py_strip v \<noteq> []) (map snd flags') \<Longrightarrow>
   hw_filename_base_from_hw_flags flags N = hw_filename_base_from_hw_flags flags' N"
  by (simp add: hw_filename_base_from_hw_flags_def py_str_def)

lemma hw_base_without_null:
  assumes "distinct (map fst kvs)"
  shows "hw_filename_base_from_hw_flags
           (collect_dict_flags (JObj (filter (\<lambda>(k, v). v \<noteq> JNull) kvs))) N
         = hw_filename_base_from_hw_flags (collect_dict_flags (JObj kvs)) N"
proof -
  let ?nn = "\<lambda>(k :: string, v). v \<noteq> JNull"
  have d: "distinct (map fst (filter ?nn kvs))"
    using assms by (rule distinct_map_filter)
  have s: "sort_key fst (filter ?nn kvs) = filter ?nn (sort_key fst kvs)"
    by (simp add: filter_sort)
  have "collect_dict_flags (JObj (filter ?nn kvs))
        = map (\<lambda>(k, v). (k, stringify_primitive v))
            (filter (\<lambda>(k, v). is_primitive v) (filter ?nn (sort_key fst kvs)))"
    using collect_dict_flags_filter [OF d] by (simp only: s)
  then have "map snd (collect_dict_flags (JObj (filter ?nn kvs)))
        = map (\<lambda>(k, v). stringify_primitive v)
            (filter (\<lambda>(k, v). is_primitive v) (filter ?nn (sort_key fst kvs)))"
    by (simp add: comp_def case_prod_unfold)
  moreover have "map snd (collect_dict_flags (JObj kvs))
        = map (\<lambda>(k, v). stringify_primitive v)
            (filter (\<lambda>(k, v). is_primitive v) (sort_key fst kvs))"
    by (simp add: collect_dict_flags_filter [OF assms] comp_def case_prod_unfold)
  ultimately show ?thesis
    by (intro hw_base_values_usable) (simp only: usable_values_without_null)
qed

text \<open>
  C2, as amended: the file name base is made of the sanitized values of the flag map that
  are not blank (not empty once stripped of white space), joined with \<open>_\<close> in the order
  of the flag map, which is sorted by key; it is \<open>hw{N}\<close> when no value is usable. A
  sanitized value is never empty (an empty result becomes \<open>empty\<close>) and holds characters
  of \<open>[a-z0-9-]\<close> only. A flag whose JSON value is null is stored as the empty string and
  contributes no token: removing the null members of the object leaves the base unchanged.
\<close>

theorem hw_filename_base_spec:
  "hw_filename_base_from_hw_flags flags N = spec_hw_base flags N
   \<and> sanitize_value_for_filename v \<noteq> []
   \<and> (\<forall>c\<in>set (sanitize_value_for_filename v). filename_char c)
   \<and> (wf_dict (JObj kvs) \<longrightarrow>
        sorted (map fst (collect_dict_flags (JObj kvs)))
        \<and> hw_filename_base_from_hw_flags
             (collect_dict_flags (JObj (filter (\<lambda>(k, v). v \<noteq> JNull) kvs))) N
           = hw_filename_base_from_hw_flags (collect_dict_flags (JObj kvs)) N)"
proof (intro conjI impI ballI)
  show "hw_filename_base_from_hw_flags flags N = spec_hw_base flags N"
    by (rule hw_filename_base_eq)
  show "sanitize_value_for_filename v \<noteq> []" by (rule sanitize_value_nonempty)
next
  fix c assume "c \<in> set (sanitize_value_for_filename v)"
  then show "filename_char c" by (rule sanitize_value_chars)
next
  assume "wf_dict (JObj kvs)"
  then show "sorted (map fst (collect_dict_flags (JObj kvs)))"
    using collect_dict_flags_strict_sorted [of "JObj kvs"] by (simp add: strict_sorted_iff)
next
  assume "wf_dict (JObj kvs)"
  then have "distinct (map fst kvs)" by (simp add: wf_dict_def)
  then show "hw_filename_base_from_hw_flags
             (collect_dict_flags (JObj (filter (\<lambda>(k, v). v \<noteq> JNull) kvs))) N
           = hw_filename_base_from_hw_flags (collect_dict_flags (JObj kvs)) N"
    by (rule hw_base_without_null)
qed

theorem hw_filename_base_spec_witness:
  "wf_dict (JObj hw_flags_sample)
   \<and> hw_filename_base_from_hw_flags (collect_dict_flags (JObj hw_flags_sample)) 0
       = ''nucleo-l4_on_empty''
   \<and> hw_filename_base_from_hw_flags
        (collect_dict_flags (JObj (filter (\<lambda>(k, v). v \<noteq> JNull) hw_flags_sample))) 0
       = ''nucleo-l4_on_empty''
   \<and> hw_filename_base_from_hw_flags [] 5 = ''hw5''"
proof -
  have wf: "wf_dict (JObj hw_flags_sample)"
    by (simp add: wf_dict_def hw_flags_sample_def)
  note t = hw_filename_base_spec
             [of "collect_dict_flags (JObj hw_flags_sample)" 0 JNull hw_flags_sample]
  from t have 1: "hw_filename_base_from_hw_flags (collect_dict_flags (JObj hw_flags_sample)) 0
                  = spec_hw_base (collect_dict_flags (JObj hw_flags_sample)) 0" by blast
  from t wf have 2: "hw_filename_base_from_hw_flags
             (collect_dict_flags (JObj (filter (\<lambda>(k, v). v \<noteq> JNull) hw_flags_sample))) 0
           = hw_filename_base_from_hw_flags (collect_dict_flags (JObj hw_flags_sample)) 0"
    by blast
  have 3: "spec_hw_base (collect_dict_flags (JObj hw_flags_sample)) 0 = ''nucleo-l4_on_empty''"
    by code_simp
  have 4: "hw_filename_base_from_hw_flags [] 5 = ''hw5''" by code_simp
  show ?thesis using wf 1 2 3 4 by simp
qed

text \<open>
  C2 as stated fails: a null-valued flag contributes no token \<open>none\<close> (the base is
  \<open>hw0\<close>, or the other tokens alone), and a value of one space is not empty yet is
  skipped instead of giving the token \<open>empty\<close>.
\<close>

theorem hw_filename_base_counterexample:
  "hw_filename_base_from_hw_flags (collect_dict_flags (JObj [(''A'', JNull)])) 0 = ''hw0''
   \<and> hw_filename_base_from_hw_flags
        (collect_dict_flags (JObj [(''A'', JNull), (''B'', JStr ''x'')])) 0 = ''x''
   \<and> hw_filename_base_from_hw_flags (collect_dict_flags (JObj [(''A'', JStr '' '')])) 0 = ''hw0''"
  by code_simp

end
